theory Spec2Isabelle
  imports Complex_Main
begin

section \<open>Band powers and blink detection: the loop of neurofeedback.py\<close>

text \<open>
  The script connects to an EEG stream, then loops: pull a chunk, keep one channel,
  compare the chunk's peak-to-peak amplitude with a threshold (a blink presses the space
  key), push the chunk through a notch filter into a fixed-length sample buffer, take the
  newest epoch, compute its band powers, push them into a second buffer and print the
  column means of that buffer.

  Arrays are lists of rows (a row is a list of numbers), so an array of shape \<open>(n, 1)\<close>
  is a list of \<open>n\<close> one-element rows.

  Samples and band powers are binary64 numbers, written as the real numbers they denote.
  Where the script computes with them, in the difference of line 92 and in the mean of
  line 118, the exact result is rounded to binary64 by \<open>fl\<close>, as numpy does; comparisons
  are exact. Infinities, not-a-number and overflow are not modelled. A stream of
  integer samples of at most 32 bits gives the same differences, since these are exact in
  binary64 as they are in the 64-bit integers of numpy; 64-bit integer samples are not
  modelled. The configuration constants of lines 22 to 31 are computed twice, in exact
  rational arithmetic and in binary64 arithmetic as Python does.
\<close>

subsection \<open>Exceptions\<close>

datatype error =
    RuntimeError              \<comment> \<open>line 48: no EEG stream\<close>
  | IndexError                \<comment> \<open>an index or an axis that the array does not have\<close>
  | ValueError                \<comment> \<open>\<open>max\<close> of an empty sequence, an ambiguous truth value\<close>
  | InsufficientEpochLength   \<comment> \<open>the epoch extractor is asked for more than the buffer holds\<close>

subsection \<open>Binary64 arithmetic\<close>

text \<open>
  Round to nearest, ties to even, with a significand of 53 bits. \<open>normalise\<close> scales a
  positive number into \<open>[2^52, 2^53)\<close> and returns the exponent; \<open>fl\<close> rounds the scaled
  number to an integer and scales back. Overflow and subnormal numbers are not modelled.
  The functions are polymorphic: the configuration constants are rational numbers, the
  samples are real numbers.
\<close>

definition round_half_even :: "'a::floor_ceiling \<Rightarrow> int" where
  "round_half_even x =
     (let f = \<lfloor>x\<rfloor>; d = x - of_int f
      in if d < 1 / 2 then f
         else if 1 / 2 < d then f + 1
         else if even f then f else f + 1)"

fun normalise :: "nat \<Rightarrow> 'a::linordered_field \<Rightarrow> int \<Rightarrow> 'a \<times> int" where
  "normalise 0 m e = (m, e)"
| "normalise (Suc k) m e =
     (if m < 2 ^ 52 then normalise k (m * 2) (e - 1)
      else if 2 ^ 53 \<le> m then normalise k (m / 2) (e + 1)
      else (m, e))"

definition fl :: "'a::floor_ceiling \<Rightarrow> 'a" where
  "fl x =
     (if x = 0 then 0
      else (case normalise 1100 \<bar>x\<bar> 0 of
              (m, e) \<Rightarrow>
                (let q = of_int (round_half_even m) * (2 powi e)
                 in if x < 0 then - q else q)))"

subsection \<open>Experimental parameters (lines 22 to 38)\<close>

definition BUFFER_LENGTH :: int where
  "BUFFER_LENGTH = 5"

definition EPOCH_LENGTH :: int where
  "EPOCH_LENGTH = 1"

text \<open>The literal \<open>0.8\<close> is the binary64 number nearest to \<open>4/5\<close>.\<close>

definition OVERLAP_LENGTH :: rat where
  "OVERLAP_LENGTH = fl (4 / 5)"

definition SHIFT_LENGTH :: rat where
  "SHIFT_LENGTH = fl (of_int EPOCH_LENGTH - OVERLAP_LENGTH)"

definition INDEX_CHANNEL :: "nat list" where
  "INDEX_CHANNEL = [0]"

definition BLINK_THRESHOLD :: real where
  "BLINK_THRESHOLD = 200"

text \<open>
  Line 69: \<open>int(np.floor((BUFFER_LENGTH - EPOCH_LENGTH) / SHIFT_LENGTH + 1))\<close>. The
  subtraction of two Python integers is exact; the division and the addition round.
\<close>

definition n_win_test :: int where
  "n_win_test =
     \<lfloor>fl (fl (of_int (BUFFER_LENGTH - EPOCH_LENGTH) / SHIFT_LENGTH) + 1)\<rfloor>"

text \<open>The same expression with the constants as the spec writes them, in exact arithmetic.\<close>

definition SHIFT_LENGTH_exact :: rat where
  "SHIFT_LENGTH_exact = of_int EPOCH_LENGTH - 4 / 5"

definition n_win_exact :: int where
  "n_win_exact = \<lfloor>of_int (BUFFER_LENGTH - EPOCH_LENGTH) / SHIFT_LENGTH_exact + 1\<rfloor>"

subsection \<open>Selecting the channel (line 88)\<close>

text \<open>
  \<open>np.array(eeg_data)[:, INDEX_CHANNEL]\<close>. An empty pull is the empty list, whose array
  has shape \<open>(0,)\<close>: it has no second axis and the index raises IndexError. Rows of
  different lengths do not make a rectangular array (ValueError), and a channel index
  beyond the row length raises IndexError.
\<close>

definition take_channels :: "nat list \<Rightarrow> real list list \<Rightarrow> error + real list list" where
  "take_channels idx eeg_data =
     (case eeg_data of
        [] \<Rightarrow> Inl IndexError
      | r # rs \<Rightarrow>
          if list_ex (\<lambda>r'. length r' \<noteq> length r) rs then Inl ValueError
          else if list_ex (\<lambda>i. length r \<le> i) idx then Inl IndexError
          else Inr (map (\<lambda>row. map (\<lambda>i. row ! i) idx) eeg_data))"

subsection \<open>Python's \<open>max\<close> and \<open>min\<close> over the rows of an array (line 92)\<close>

text \<open>
  The builtin \<open>max\<close> iterates over the rows and keeps the first row \<open>best\<close> until some row
  \<open>x\<close> has \<open>x > best\<close> true. \<open>x > best\<close> is an array of booleans, and its truth value is
  defined only when it has exactly one element. An empty iterable raises ValueError.
\<close>

fun truth :: "bool list \<Rightarrow> error + bool" where
  "truth [b] = Inr b"
| "truth _ = Inl ValueError"

fun py_max_from :: "real list \<Rightarrow> real list list \<Rightarrow> error + real list" where
  "py_max_from best [] = Inr best"
| "py_max_from best (x # xs) =
     (case truth (map2 (\<lambda>a b. b < a) x best) of
        Inl e \<Rightarrow> Inl e
      | Inr t \<Rightarrow> py_max_from (if t then x else best) xs)"

definition py_max :: "real list list \<Rightarrow> error + real list" where
  "py_max rows = (case rows of [] \<Rightarrow> Inl ValueError | x # xs \<Rightarrow> py_max_from x xs)"

fun py_min_from :: "real list \<Rightarrow> real list list \<Rightarrow> error + real list" where
  "py_min_from best [] = Inr best"
| "py_min_from best (x # xs) =
     (case truth (map2 (\<lambda>a b. a < b) x best) of
        Inl e \<Rightarrow> Inl e
      | Inr t \<Rightarrow> py_min_from (if t then x else best) xs)"

definition py_min :: "real list list \<Rightarrow> error + real list" where
  "py_min rows = (case rows of [] \<Rightarrow> Inl ValueError | x # xs \<Rightarrow> py_min_from x xs)"

text \<open>
  Line 92: \<open>signal_diff = max(ch_data) - min(ch_data)\<close>, an elementwise difference of two
  arrays of binary64 numbers: each difference is rounded.
\<close>

definition signal_diff :: "real list list \<Rightarrow> error + real list" where
  "signal_diff ch_data =
     (case py_max ch_data of
        Inl e \<Rightarrow> Inl e
      | Inr mx \<Rightarrow>
          (case py_min ch_data of
             Inl e \<Rightarrow> Inl e
           | Inr mn \<Rightarrow> Inr (map2 (\<lambda>a b. fl (a - b)) mx mn)))"

subsection \<open>What the loop prints and does\<close>

datatype event =
    Print string                         \<comment> \<open>a fixed message\<close>
  | SignalDifference "real list"         \<comment> \<open>line 95\<close>
  | PressSpace                           \<comment> \<open>line 99: \<open>pyautogui.press('space')\<close>\<close>
  | BandPowers real real real real       \<comment> \<open>lines 121 to 126: delta, theta, alpha, beta\<close>

text \<open>
  Section 3.2 of the loop (lines 92 to 100): the events of the blink detector, and the
  exception that it raises if it raises one. The difference is printed before it is
  compared with the threshold.
\<close>

definition detect_blinks :: "real list list \<Rightarrow> event list \<times> error option" where
  "detect_blinks ch_data =
     (case signal_diff ch_data of
        Inl e \<Rightarrow> ([], Some e)
      | Inr d \<Rightarrow>
          (case truth (map (\<lambda>x. BLINK_THRESHOLD < x) d) of
             Inl e \<Rightarrow> ([SignalDifference d], Some e)
           | Inr blink \<Rightarrow>
               (SignalDifference d #
                  (if blink then [PressSpace, Print ''Blink detected, Dino jumps!'']
                   else []),
                None)))"

subsection \<open>The notch filter and the buffer update (\<open>utils.update_buffer\<close>)\<close>

text \<open>
  Modelled from the spec: the module \<open>utils\<close> that the script imports is not among the
  source files, and neither are the coefficients of its notch filter. The spec describes
  the filter as a stateful filter applied to each incoming chunk, whose opaque state is
  carried from one call to the next and is created by an initial-condition rule. Such a
  filter is a rule for the initial state and a step that maps the state and one input
  sample to one output sample and the next state; each column of the array has a state
  of its own.
\<close>

record 's filter =
  zi :: 's
  step :: "'s \<Rightarrow> real \<Rightarrow> real \<times> 's"

definition filter_row :: "'s filter \<Rightarrow> 's list \<Rightarrow> real list \<Rightarrow> real list \<times> 's list" where
  "filter_row F zs row = (let rs = map2 (step F) zs row in (map fst rs, map snd rs))"

fun lfilter :: "'s filter \<Rightarrow> 's list \<Rightarrow> real list list \<Rightarrow> real list list \<times> 's list" where
  "lfilter F zs [] = ([], zs)"
| "lfilter F zs (row # rows) =
     (case filter_row F zs row of
        (y, zs') \<Rightarrow> (case lfilter F zs' rows of (ys, zs'') \<Rightarrow> (y # ys, zs'')))"

text \<open>
  Modelled from the spec: section 4.1. The state is \<open>None\<close> before the first chunk and is
  then created by the initial-condition rule; a chunk of length zero leaves the state as
  it is.
\<close>

definition apply_filter ::
  "'s filter \<Rightarrow> 's list option \<Rightarrow> real list list \<Rightarrow> real list list \<times> 's list option" where
  "apply_filter F state_in chunk =
     (case chunk of
        [] \<Rightarrow> ([], state_in)
      | row # _ \<Rightarrow>
          (let zs = (case state_in of
                       None \<Rightarrow> replicate (length row) (zi F)
                     | Some zs \<Rightarrow> zs)
           in case lfilter F zs chunk of (ys, zs') \<Rightarrow> (ys, Some zs')))"

text \<open>
  Modelled from the spec: section 4.1, \<open>update(buffer, newChunk, applyFilter, filterState)\<close>
  returns the new buffer and the new filter state. The chunk is filtered when filtering
  is enabled, appended to the buffer, and the result is truncated from the front to the
  length of the buffer.
\<close>

definition update_buffer ::
  "'s filter \<Rightarrow> real list list \<Rightarrow> real list list \<Rightarrow> bool \<Rightarrow> 's list option
     \<Rightarrow> real list list \<times> 's list option" where
  "update_buffer F data_buffer new_data notch state_in =
     (case (if notch then apply_filter F state_in new_data else (new_data, state_in)) of
        (filtered, state_out) \<Rightarrow>
          (let joined = data_buffer @ filtered
           in (drop (length joined - length data_buffer) joined, state_out)))"

subsection \<open>The epoch extractor (\<open>utils.get_last_data\<close>)\<close>

text \<open>
  Modelled from the spec: section 4.2, \<open>lastData(buffer, n)\<close> returns the final \<open>n\<close>
  elements of the buffer and fails or clamps when \<open>n\<close> exceeds the length of the buffer.
  Of the two behaviours that the spec allows this model takes the failure, so that the
  branch shows in the result.
\<close>

definition get_last_data :: "real list list \<Rightarrow> nat \<Rightarrow> error + real list list" where
  "get_last_data data_buffer n =
     (if length data_buffer < n then Inl InsufficientEpochLength
      else Inr (drop (length data_buffer - n) data_buffer))"

subsection \<open>The mean over the rows (line 118)\<close>

text \<open>
  \<open>np.mean(band_buffer, axis=0)\<close> in binary64: numpy adds the rows elementwise, one after
  the other, into an accumulator that starts as the first row, and divides the sums by
  the number of rows; every addition and the division round. Without rows the means
  are not numbers, which is \<open>None\<close> here.
\<close>

definition vadd :: "real list \<Rightarrow> real list \<Rightarrow> real list" where
  "vadd u v = map2 (\<lambda>a b. fl (a + b)) u v"

definition mean_axis0 :: "real list list \<Rightarrow> real list option" where
  "mean_axis0 rows =
     (case rows of
        [] \<Rightarrow> None
      | r # rs \<Rightarrow> Some (map (\<lambda>s. fl (s / real (length rows))) (foldl vadd r rs)))"

text \<open>
  The binary64 mean of one column, as the spec's words "column-wise arithmetic mean over
  all currently stored rows" read once the arithmetic rounds: the entries of the column
  are added from the first to the last, and the sum is divided by their number. The mean
  of line 118 is compared with it below.
\<close>

definition fl_sum :: "real \<Rightarrow> real list \<Rightarrow> real" where
  "fl_sum x xs = foldl (\<lambda>s y. fl (s + y)) x xs"

definition column_mean :: "real list list \<Rightarrow> nat \<Rightarrow> real" where
  "column_mean rows j =
     fl (fl_sum (hd rows ! j) (map (\<lambda>r. r ! j) (tl rows)) / real (length rows))"

subsection \<open>The state of the loop and one iteration (lines 83 to 126)\<close>

record 's loop_state =
  eeg_buffer :: "real list list"
  filter_state :: "'s list option"
  band_buffer :: "real list list"

text \<open>
  The band power estimator \<open>utils.compute_band_powers\<close> is not among the source files; it
  is a parameter \<open>cbp\<close> of the loop, a function of the epoch and the sampling rate that
  returns the four band powers delta, theta, alpha and beta.
\<close>

type_synonym estimator = "real list list \<Rightarrow> int \<Rightarrow> real \<times> real \<times> real \<times> real"

fun band_row :: "real \<times> real \<times> real \<times> real \<Rightarrow> real list" where
  "band_row (d, t, a, b) = [d, t, a, b]"

text \<open>Lines 104 to 109: the new sample buffer, the new filter state and the epoch.\<close>

definition update_eeg ::
  "'s filter \<Rightarrow> 's loop_state \<Rightarrow> real list list \<Rightarrow> real list list \<times> 's list option" where
  "update_eeg F st ch_data = update_buffer F (eeg_buffer st) ch_data True (filter_state st)"

definition data_epoch ::
  "'s filter \<Rightarrow> int \<Rightarrow> 's loop_state \<Rightarrow> real list list \<Rightarrow> error + real list list" where
  "data_epoch F fs st ch_data =
     get_last_data (fst (update_eeg F st ch_data)) (nat (EPOCH_LENGTH * fs))"

text \<open>
  Lines 118 to 126: the means of the band power buffer, as the event that prints them.
  The print reads the columns 0 to 3 of the means.
\<close>

definition report :: "real list list \<Rightarrow> error + event list" where
  "report band_buf =
     (case mean_axis0 band_buf of
        None \<Rightarrow> Inr [Print ''Delta: nan, Theta: nan, Alpha: nan, Beta: nan'']
      | Some smooth_band_powers \<Rightarrow>
          (if length smooth_band_powers < 4 then Inl IndexError
           else Inr [BandPowers (smooth_band_powers ! 0) (smooth_band_powers ! 1)
                       (smooth_band_powers ! 2) (smooth_band_powers ! 3)]))"

text \<open>
  Section 3.3 of the loop (lines 104 to 126). The second component that the update of the
  band power buffer returns is dropped, as the \<open>_\<close> of line 113 does.
\<close>

definition compute_band_powers_section ::
  "'s filter \<Rightarrow> estimator \<Rightarrow> int \<Rightarrow> 's loop_state \<Rightarrow> real list list
     \<Rightarrow> error + ('s loop_state \<times> event list)" where
  "compute_band_powers_section F cbp fs st ch_data =
     (case update_eeg F st ch_data of
        (eeg_buffer', filter_state') \<Rightarrow>
          (case data_epoch F fs st ch_data of
             Inl e \<Rightarrow> Inl e
           | Inr epoch \<Rightarrow>
               (let band_powers = cbp epoch fs;
                    band_buffer' =
                      fst (update_buffer F (band_buffer st) [band_row band_powers] False None)
                in case report band_buffer' of
                     Inl e \<Rightarrow> Inl e
                   | Inr evs \<Rightarrow>
                       Inr (\<lparr>eeg_buffer = eeg_buffer', filter_state = filter_state',
                             band_buffer = band_buffer'\<rparr>, evs))))"

text \<open>
  One iteration on the chunk that the pull returned: the events up to the end of the
  iteration or up to the exception, and the new state or the exception.
\<close>

definition iteration ::
  "'s filter \<Rightarrow> estimator \<Rightarrow> int \<Rightarrow> 's loop_state \<Rightarrow> real list list
     \<Rightarrow> event list \<times> (error + 's loop_state)" where
  "iteration F cbp fs st eeg_data =
     (case take_channels INDEX_CHANNEL eeg_data of
        Inl e \<Rightarrow> ([], Inl e)
      | Inr ch_data \<Rightarrow>
          (case detect_blinks ch_data of
             (evs, Some e) \<Rightarrow> (evs, Inl e)
           | (evs, None) \<Rightarrow>
               (case compute_band_powers_section F cbp fs st ch_data of
                  Inl e \<Rightarrow> (evs, Inl e)
                | Inr (st', evs') \<Rightarrow> (evs @ evs', Inr st'))))"

subsection \<open>The loop and the program (lines 40 to 129)\<close>

text \<open>
  The loop runs until the user interrupts it. A run is given by the chunks that the pulls
  return before the interrupt: after the last of them the interrupt arrives, the script
  prints its closing message and ends. An exception other than the interrupt ends the
  run where it is raised.
\<close>

fun loop ::
  "'s filter \<Rightarrow> estimator \<Rightarrow> int \<Rightarrow> 's loop_state \<Rightarrow> real list list list
     \<Rightarrow> event list \<times> (error + 's loop_state)" where
  "loop F cbp fs st [] = ([Print ''Closing!''], Inr st)"
| "loop F cbp fs st (eeg_data # pulls) =
     (case iteration F cbp fs st eeg_data of
        (evs, Inl e) \<Rightarrow> (evs, Inl e)
      | (evs, Inr st') \<Rightarrow>
          (case loop F cbp fs st' pulls of (evs', r) \<Rightarrow> (evs @ evs', r)))"

text \<open>Python's \<open>int\<close> of a float truncates towards zero.\<close>

definition py_int :: "real \<Rightarrow> int" where
  "py_int x = (if 0 \<le> x then \<lfloor>x\<rfloor> else \<lceil>x\<rceil>)"

text \<open>Lines 65 to 73: the buffers of zeros. \<open>np.zeros\<close> refuses a negative dimension.\<close>

definition initial_state :: "int \<Rightarrow> error + 's loop_state" where
  "initial_state fs =
     (if fs * BUFFER_LENGTH < 0 \<or> n_win_test < 0 then Inl ValueError
      else Inr \<lparr>eeg_buffer = replicate (nat (fs * BUFFER_LENGTH)) [0],
                filter_state = None,
                band_buffer = replicate (nat n_win_test) [0, 0, 0, 0]\<rparr>)"

text \<open>
  The program. \<open>streams\<close> is what the stream discovery found within its timeout, each
  stream given by its nominal sampling rate; \<open>pulls\<close> are the chunks of the run.
\<close>

definition main ::
  "'s filter \<Rightarrow> estimator \<Rightarrow> real list \<Rightarrow> real list list list
     \<Rightarrow> event list \<times> (error + 's loop_state)" where
  "main F cbp streams pulls =
     (case streams of
        [] \<Rightarrow> ([Print ''Looking for an EEG stream...''], Inl RuntimeError)
      | srate # _ \<Rightarrow>
          (let fs = py_int srate
           in case initial_state fs of
                Inl e \<Rightarrow>
                  ([Print ''Looking for an EEG stream...'', Print ''Start acquiring data''],
                   Inl e)
              | Inr st \<Rightarrow>
                  (case loop F cbp fs st pulls of
                     (evs, r) \<Rightarrow>
                       ([Print ''Looking for an EEG stream...'',
                         Print ''Start acquiring data'',
                         Print ''Press Ctrl-C in the console to break the while loop.'']
                        @ evs, r))))"

subsection \<open>A concrete filter and a concrete estimator\<close>

text \<open>
  A filter with one pole, \<open>y[n] = x[n] + y[n-1] / 2\<close>, whose state is the last output, and
  an estimator that returns the same four band powers for every epoch. They provide the
  concrete runs on which the general statements below are instantiated.
\<close>

definition one_pole :: "real filter" where
  "one_pole = \<lparr>zi = 0, step = (\<lambda>z x. (x + z / 2, x + z / 2))\<rparr>"

definition fixed_estimator :: estimator where
  "fixed_estimator epoch fs = (21, 42, 63, 84)"

text \<open>
  A second estimator, which agrees with the first one on the epochs of one row and on no
  other epoch.
\<close>

definition one_row_estimator :: estimator where
  "one_row_estimator epoch fs = (if length epoch = 1 then (21, 42, 63, 84) else (0, 0, 0, 0))"

text \<open>
  A run with the sampling rate 1: the buffers of the initial state, two pulls of a source
  with two channels, what the first iteration prints and leaves behind, and what the
  whole run prints and leaves behind.
\<close>

definition run_pulls :: "real list list list" where
  "run_pulls = [[[4, 9], [304, 9]], [[8, 7]]]"

definition run_start :: "real loop_state" where
  "run_start = \<lparr>eeg_buffer = replicate 5 [0], filter_state = None,
                 band_buffer = replicate 21 [0, 0, 0, 0]\<rparr>"

definition run_first_events :: "event list" where
  "run_first_events =
     [SignalDifference [300], PressSpace, Print ''Blink detected, Dino jumps!'',
      BandPowers 1 2 3 4]"

definition run_middle :: "real loop_state" where
  "run_middle = \<lparr>eeg_buffer = [[0], [0], [0], [4], [306]], filter_state = Some [306],
                  band_buffer = replicate 20 [0, 0, 0, 0] @ [[21, 42, 63, 84]]\<rparr>"

definition run_events :: "event list" where
  "run_events =
     [SignalDifference [300], PressSpace, Print ''Blink detected, Dino jumps!'',
      BandPowers 1 2 3 4, SignalDifference [0], BandPowers 2 4 6 8, Print ''Closing!'']"

definition run_final :: "real loop_state" where
  "run_final = \<lparr>eeg_buffer = [[0], [0], [4], [306], [161]], filter_state = Some [161],
                 band_buffer = replicate 19 [0, 0, 0, 0] @ [[21, 42, 63, 84], [21, 42, 63, 84]]\<rparr>"

section \<open>Properties\<close>

subsection \<open>The configuration constants\<close>

lemma normalise_numeral:
  "normalise (numeral k) m e =
     (if m < 2 ^ 52 then normalise (pred_numeral k) (m * 2) (e - 1)
      else if 2 ^ 53 \<le> m then normalise (pred_numeral k) (m / 2) (e + 1)
      else (m, e))"
  by (simp add: numeral_eq_Suc)

lemma floor_numeral_div:
  "\<lfloor>numeral a / numeral b :: 'a::floor_ceiling\<rfloor> = numeral a div numeral b"
  using floor_divide_of_int_eq [of "numeral a" "numeral b", where ?'a = 'a] by simp

lemmas round_eval = round_half_even_def Let_def floor_numeral_div power_int_minus

lemma overlap_value: "OVERLAP_LENGTH = 3602879701896397 / 4503599627370496"
  unfolding OVERLAP_LENGTH_def fl_def
  apply (simp add: normalise_numeral)
  apply (simp add: round_eval)
  done

lemma shift_value: "SHIFT_LENGTH = 900719925474099 / 4503599627370496"
  unfolding SHIFT_LENGTH_def overlap_value EPOCH_LENGTH_def
  apply simp
  unfolding fl_def
  apply (simp add: normalise_numeral)
  apply (simp add: round_eval)
  done

lemma quotient_value:
  "fl (of_int (BUFFER_LENGTH - EPOCH_LENGTH) / SHIFT_LENGTH)
     = 5629499534213121 / 281474976710656"
  unfolding shift_value BUFFER_LENGTH_def EPOCH_LENGTH_def
  apply simp
  unfolding fl_def
  apply (simp add: normalise_numeral)
  apply (simp add: round_eval)
  done

lemma n_win_test_value: "n_win_test = 21"
  unfolding n_win_test_def quotient_value
  apply simp
  unfolding fl_def
  apply (simp add: normalise_numeral)
  apply (simp add: round_eval)
  done

lemma n_win_exact_value: "n_win_exact = 21"
  by (simp add: n_win_exact_def SHIFT_LENGTH_exact_def BUFFER_LENGTH_def EPOCH_LENGTH_def)

lemma fl_zero: "fl 0 = 0"
  by (simp add: fl_def)

lemma fl_pos:
  "0 < x \<Longrightarrow>
   fl x = (case normalise 1100 x 0 of (m, e) \<Rightarrow> of_int (round_half_even m) * (2 powi e))"
  by (simp add: fl_def Let_def)

lemma round_half_even_numeral_div:
  "round_half_even (numeral a / numeral b :: 'a::floor_ceiling) =
     (if numeral a / numeral b - of_int (numeral a div numeral b) < (1 / 2 :: 'a)
      then numeral a div numeral b
      else if (1 / 2 :: 'a) < numeral a / numeral b - of_int (numeral a div numeral b)
      then numeral a div numeral b + 1
      else if even (numeral a div numeral b :: int) then numeral a div numeral b
      else numeral a div numeral b + 1)"
  unfolding round_half_even_def Let_def floor_numeral_div by (rule refl)

lemma round_half_even_numeral: "round_half_even (numeral a) = numeral a"
  by (simp add: round_half_even_def Let_def)

lemmas b64_eval = fl_zero fl_pos normalise_numeral round_half_even_numeral_div
  round_half_even_numeral power_int_minus

subsection \<open>Facts about rounding\<close>

lemma round_half_even_of_int: "round_half_even (of_int z :: 'a::floor_ceiling) = z"
  by (simp add: round_half_even_def Let_def)

lemma round_half_even_le:
  assumes "(x :: 'a::floor_ceiling) \<le> of_int z"
  shows "round_half_even x \<le> z"
proof (cases "x = of_int z")
  case True
  then show ?thesis by (simp add: round_half_even_of_int)
next
  case False
  with assms have "x < of_int z" by simp
  then have "\<lfloor>x\<rfloor> < z" by (simp add: floor_less_iff)
  then have "\<lfloor>x\<rfloor> + 1 \<le> z" by simp
  moreover have "round_half_even x \<le> \<lfloor>x\<rfloor> + 1"
    by (simp add: round_half_even_def Let_def)
  ultimately show ?thesis by linarith
qed

lemma round_half_even_nonneg:
  assumes "0 \<le> (x :: 'a::floor_ceiling)"
  shows "0 \<le> round_half_even x"
proof -
  have "0 \<le> \<lfloor>x\<rfloor>" using assms by simp
  moreover have "\<lfloor>x\<rfloor> \<le> round_half_even x" by (simp add: round_half_even_def Let_def)
  ultimately show ?thesis by linarith
qed

lemma normalise_small:
  assumes "0 < m" and "m < 2 ^ 53" and "normalise k m e = (m', e')"
  shows "\<exists>i. m' = m * 2 ^ i \<and> e' = e - int i"
  using assms
proof (induction k arbitrary: m e)
  case 0
  then have "m' = m * 2 ^ 0 \<and> e' = e - int 0" by simp
  then show ?case by blast
next
  case (Suc k)
  show ?case
  proof (cases "m < 2 ^ 52")
    case True
    then have "m * 2 < 2 ^ 53" by simp
    moreover have "0 < m * 2" using Suc.prems(1) by simp
    moreover have "normalise k (m * 2) (e - 1) = (m', e')" using Suc.prems(3) True by simp
    ultimately obtain i where "m' = m * 2 * 2 ^ i" and "e' = e - 1 - int i"
      using Suc.IH by blast
    then have "m' = m * 2 ^ Suc i \<and> e' = e - int (Suc i)" by simp
    then show ?thesis by blast
  next
    case False
    with Suc.prems have "m' = m * 2 ^ 0 \<and> e' = e - int 0" by simp
    then show ?thesis by blast
  qed
qed

lemma normalise_pos:
  "0 < m \<Longrightarrow> normalise k m e = (m', e') \<Longrightarrow> 0 < m'"
proof (induction k arbitrary: m e)
  case 0
  then show ?case by simp
next
  case (Suc k)
  show ?case
  proof (cases "m < 2 ^ 52")
    case True
    with Suc.prems have "normalise k (m * 2) (e - 1) = (m', e')" and "0 < m * 2" by simp_all
    then show ?thesis using Suc.IH by blast
  next
    case False
    show ?thesis
    proof (cases "2 ^ 53 \<le> m")
      case True
      with False Suc.prems have "normalise k (m / 2) (e + 1) = (m', e')" and "0 < m / 2"
        by simp_all
      then show ?thesis using Suc.IH by blast
    next
      case nd: False
      with False Suc.prems show ?thesis by simp
    qed
  qed
qed

lemma fl_nonneg:
  assumes "0 \<le> (x :: 'a::floor_ceiling)"
  shows "0 \<le> fl x"
proof (cases "x = 0")
  case True
  then show ?thesis by (simp add: fl_zero)
next
  case False
  with assms have pos: "0 < x" by simp
  obtain m' e' where n: "normalise 1100 x 0 = (m', e')" by (cases "normalise 1100 x 0")
  from normalise_pos [OF pos n] have "0 \<le> m'" by simp
  then have "0 \<le> round_half_even m'" by (rule round_half_even_nonneg)
  then have "(0 :: 'a) \<le> of_int (round_half_even m')" by simp
  moreover have "(0 :: 'a) \<le> 2 powi e'" by simp
  ultimately have "(0 :: 'a) \<le> of_int (round_half_even m') * 2 powi e'"
    by (rule mult_nonneg_nonneg)
  moreover have "fl x = of_int (round_half_even m') * 2 powi e'"
    using fl_pos [OF pos] by (simp only: n prod.case)
  ultimately show ?thesis by simp
qed

lemma fl_small:
  assumes "0 < (x :: 'a::floor_ceiling)" and "x < 2 ^ 53"
  shows "\<exists>i. fl x = of_int (round_half_even (x * 2 ^ i)) / 2 ^ i"
proof -
  obtain m' e' where n: "normalise 1100 x 0 = (m', e')" by (cases "normalise 1100 x 0")
  from normalise_small [OF assms n] obtain i where m: "m' = x * 2 ^ i" and e: "e' = - int i"
    by auto
  have "fl x = of_int (round_half_even m') * 2 powi e'"
    using fl_pos [OF assms(1)] by (simp only: n prod.case)
  also have "\<dots> = of_int (round_half_even (x * 2 ^ i)) * 2 powi (- int i)"
    by (simp only: m e)
  also have "\<dots> = of_int (round_half_even (x * 2 ^ i)) / 2 ^ i"
    by (simp only: power_int_minus power_int_of_nat divide_inverse)
  finally show ?thesis by blast
qed

lemma fl_of_int_pos:
  assumes "0 < z" and "(of_int z :: 'a::floor_ceiling) < 2 ^ 53"
  shows "fl (of_int z :: 'a) = of_int z"
proof -
  have "0 < (of_int z :: 'a)" using assms(1) by simp
  from fl_small [OF this assms(2)] obtain i
    where f: "fl (of_int z :: 'a) = of_int (round_half_even (of_int z * 2 ^ i :: 'a)) / 2 ^ i"
    by blast
  have "round_half_even (of_int z * 2 ^ i :: 'a) = z * 2 ^ i"
    using round_half_even_of_int [of "z * 2 ^ i", where ?'a = 'a] by simp
  with f have "fl (of_int z :: 'a) = of_int (z * 2 ^ i) / 2 ^ i" by (simp only:)
  also have "\<dots> = of_int z" by simp
  finally show ?thesis .
qed

lemma fl_minus: "fl (- x) = - fl (x :: 'a::floor_ceiling)"
  by (cases "x = 0") (auto simp: fl_def Let_def split: prod.splits)

lemma fl_of_int:
  assumes "\<bar>of_int z :: 'a::floor_ceiling\<bar> < 2 ^ 53"
  shows "fl (of_int z :: 'a) = of_int z"
proof -
  consider "z = 0" | "0 < z" | "z < 0" by linarith
  then show ?thesis
  proof cases
    case 1
    then show ?thesis by (simp add: fl_zero)
  next
    case 2
    with assms show ?thesis by (simp add: fl_of_int_pos)
  next
    case 3
    then have "0 < - z" by simp
    moreover have "(of_int (- z) :: 'a) < 2 ^ 53" using assms 3 by simp
    ultimately have "fl (of_int (- z) :: 'a) = of_int (- z)" by (rule fl_of_int_pos)
    then show ?thesis using fl_minus [of "of_int z :: 'a"] by simp
  qed
qed

lemma fl_le_of_int:
  assumes "(x :: 'a::floor_ceiling) \<le> of_int z" and "0 \<le> z" and "(of_int z :: 'a) < 2 ^ 53"
  shows "fl x \<le> of_int z"
proof -
  consider "x = 0" | "0 < x" | "x < 0" by linarith
  then show ?thesis
  proof cases
    case 1
    then show ?thesis using assms(2) by (simp add: fl_zero)
  next
    case 2
    have "x < 2 ^ 53" using assms(1,3) by (rule le_less_trans)
    from fl_small [OF 2 this] obtain i
      where f: "fl x = of_int (round_half_even (x * 2 ^ i)) / 2 ^ i" by blast
    have "x * 2 ^ i \<le> of_int (z * 2 ^ i)" using assms(1) by simp
    then have "round_half_even (x * 2 ^ i) \<le> z * 2 ^ i" by (rule round_half_even_le)
    then have "(of_int (round_half_even (x * 2 ^ i)) :: 'a) \<le> of_int (z * 2 ^ i)"
      by (simp only: of_int_le_iff)
    then have "(of_int (round_half_even (x * 2 ^ i)) :: 'a) / 2 ^ i \<le> of_int z"
      by (simp add: field_simps)
    with f show ?thesis by simp
  next
    case 3
    then have "0 \<le> - x" by simp
    then have "0 \<le> fl (- x)" by (rule fl_nonneg)
    then have "fl x \<le> 0" by (simp add: fl_minus)
    moreover have "(0 :: 'a) \<le> of_int z" using assms(2) by simp
    ultimately show ?thesis by (rule order_trans)
  qed
qed

lemma initial_state_Inr:
  "0 \<le> fs \<Longrightarrow>
   initial_state fs =
     Inr \<lparr>eeg_buffer = replicate (nat (fs * BUFFER_LENGTH)) [0], filter_state = None,
          band_buffer = replicate 21 [0, 0, 0, 0]\<rparr>"
  by (simp add: initial_state_def n_win_test_value BUFFER_LENGTH_def)

text \<open>
  C2. The band power buffer is created with
  \<open>floor((BUFFER_LENGTH - EPOCH_LENGTH) / SHIFT_LENGTH + 1)\<close> rows. In exact arithmetic,
  with \<open>SHIFT_LENGTH = 1 - 4/5\<close>, this number is 21; the binary64 computation of line 69
  gives the same number; and for every sampling rate that lets the buffers be created,
  the band power buffer of the initial state has that many rows.
\<close>

theorem band_buffer_rows:
  assumes "0 \<le> fs"
  shows "n_win_exact = 21 \<and> n_win_test = n_win_exact \<and>
         (\<exists>st :: 's loop_state.
            initial_state fs = Inr st \<and> int (length (band_buffer st)) = n_win_exact)"
  using assms by (simp add: n_win_exact_value n_win_test_value initial_state_Inr)

theorem band_buffer_rows_witness:
  "(0::int) \<le> 256 \<and> n_win_exact = 21 \<and> n_win_test = n_win_exact \<and>
   (\<exists>st :: real loop_state.
      initial_state 256 = Inr st \<and> int (length (band_buffer st)) = n_win_exact)"
  using band_buffer_rows [of 256, where ?'s = real] by simp

subsection \<open>Start-up\<close>

text \<open>
  C8. When the stream discovery finds no stream, the program prints its first message
  and ends with the RuntimeError of line 48, whatever the filter, the estimator and the
  chunks that the source would have delivered: nothing else is printed, no chunk is
  pulled, no key is pressed and there is no loop state.
\<close>

theorem no_stream_is_fatal:
  "main F cbp [] pulls = ([Print ''Looking for an EEG stream...''], Inl RuntimeError)"
  by (simp add: main_def)

subsection \<open>An empty chunk\<close>

text \<open>
  C1. The code on an empty pull: the channel selection of line 88 raises IndexError, so
  the iteration ends with an exception before anything is printed, and the loop ends
  there, whatever chunks would follow. The blink detector alone, on an array without
  rows, raises ValueError at line 92.
\<close>

theorem empty_chunk_raises:
  "iteration F cbp fs st [] = ([], Inl IndexError) \<and>
   loop F cbp fs st ([] # pulls) = ([], Inl IndexError) \<and>
   detect_blinks [] = ([], Some ValueError)"
  by (simp add: iteration_def take_channels_def detect_blinks_def signal_diff_def py_max_def)

subsection \<open>The filter and the buffer update\<close>

lemma length_lfilter: "length (fst (lfilter F zs rows)) = length rows"
proof (induction rows arbitrary: zs)
  case Nil
  show ?case by simp
next
  case (Cons row rows)
  obtain y zs' where r: "filter_row F zs row = (y, zs')" by (cases "filter_row F zs row")
  obtain ys zs'' where l: "lfilter F zs' rows = (ys, zs'')" by (cases "lfilter F zs' rows")
  from Cons.IH [of zs'] l have "length ys = length rows" by simp
  with r l show ?case by simp
qed

lemma lfilter_append:
  "lfilter F zs (c1 @ c2) =
     (case lfilter F zs c1 of
        (y1, zs1) \<Rightarrow> (case lfilter F zs1 c2 of (y2, zs2) \<Rightarrow> (y1 @ y2, zs2)))"
proof (induction c1 arbitrary: zs)
  case Nil
  show ?case by (simp split: prod.splits)
next
  case (Cons row rows)
  obtain y zs' where r: "filter_row F zs row = (y, zs')" by (cases "filter_row F zs row")
  show ?case by (simp add: r Cons.IH [of zs'] split: prod.splits)
qed


lemma apply_filter_Cons:
  "apply_filter F s (r # rs) =
     (fst (lfilter F (case s of None \<Rightarrow> replicate (length r) (zi F) | Some zs \<Rightarrow> zs) (r # rs)),
      Some (snd (lfilter F (case s of None \<Rightarrow> replicate (length r) (zi F) | Some zs \<Rightarrow> zs)
                   (r # rs))))"
  by (simp add: apply_filter_def Let_def case_prod_beta del: lfilter.simps)

lemma length_apply_filter: "length (fst (apply_filter F s chunk)) = length chunk"
proof (cases chunk)
  case Nil
  then show ?thesis by (simp add: apply_filter_def)
next
  case (Cons r rs)
  then show ?thesis by (simp add: apply_filter_Cons length_lfilter del: lfilter.simps)
qed

lemma apply_filter_append:
  "apply_filter F s (c1 @ c2) =
     (case apply_filter F s c1 of
        (y1, s1) \<Rightarrow> (case apply_filter F s1 c2 of (y2, s2) \<Rightarrow> (y1 @ y2, s2)))"
proof (cases c1)
  case Nil
  then show ?thesis by (simp add: apply_filter_def case_prod_beta)
next
  case c1: (Cons r1 rs1)
  show ?thesis
  proof (cases c2)
    case Nil
    then show ?thesis
      by (simp add: c1 apply_filter_Cons apply_filter_def del: lfilter.simps)
  next
    case (Cons r2 rs2)
    have "c1 @ c2 = r1 # (rs1 @ c2)" by (simp add: c1)
    then show ?thesis
      using lfilter_append [of F _ c1 c2]
      by (simp add: c1 Cons apply_filter_Cons case_prod_beta del: lfilter.simps)
  qed
qed

lemma length_update_buffer:
  "length (fst (update_buffer F data_buffer new_data notch s)) = length data_buffer"
  by (simp add: update_buffer_def Let_def case_prod_beta)

lemma update_buffer_drop:
  "fst (update_buffer F data_buffer new_data notch s) =
     drop (length new_data)
       (data_buffer @ (if notch then fst (apply_filter F s new_data) else new_data))"
  using length_apply_filter [of F s new_data]
  by (simp add: update_buffer_def Let_def case_prod_beta)

lemma update_buffer_state:
  "snd (update_buffer F data_buffer new_data notch s) =
     (if notch then snd (apply_filter F s new_data) else s)"
  by (simp add: update_buffer_def Let_def case_prod_beta)


lemma drop_twice_append:
  assumes "length y1 = n1" and "length y2 = n2"
  shows "drop n2 (drop n1 (buf @ y1) @ y2) = drop (n1 + n2) (buf @ y1 @ y2)"
proof -
  have "drop n1 (buf @ y1) @ y2 = drop n1 ((buf @ y1) @ y2)"
    using assms(1) by simp
  then have "drop n2 (drop n1 (buf @ y1) @ y2) = drop n2 (drop n1 (buf @ y1 @ y2))"
    by (simp only: append_assoc)
  also have "\<dots> = drop (n1 + n2) (buf @ y1 @ y2)"
    by (simp only: drop_drop add.commute [of n2 n1])
  finally show ?thesis .
qed

lemma update_buffer_append:
  "update_buffer F (fst (update_buffer F buf c1 True s)) c2 True
       (snd (update_buffer F buf c1 True s))
     = update_buffer F buf (c1 @ c2) True s"
proof (rule prod_eqI)
  show "snd (update_buffer F (fst (update_buffer F buf c1 True s)) c2 True
       (snd (update_buffer F buf c1 True s))) = snd (update_buffer F buf (c1 @ c2) True s)"
    by (simp add: update_buffer_state apply_filter_append case_prod_beta)
  define y1 where "y1 = fst (apply_filter F s c1)"
  define y2 where "y2 = fst (apply_filter F (snd (apply_filter F s c1)) c2)"
  have l1: "length y1 = length c1" and l2: "length y2 = length c2"
    by (simp_all add: y1_def y2_def length_apply_filter)
  have "fst (update_buffer F (fst (update_buffer F buf c1 True s)) c2 True
       (snd (update_buffer F buf c1 True s))) = drop (length c2) (drop (length c1) (buf @ y1) @ y2)"
    by (simp only: update_buffer_drop update_buffer_state y1_def y2_def if_True)
  also have "\<dots> = drop (length c1 + length c2) (buf @ y1 @ y2)"
    by (rule drop_twice_append [OF l1 l2])
  also have "\<dots> = fst (update_buffer F buf (c1 @ c2) True s)"
    by (simp add: update_buffer_drop apply_filter_append case_prod_beta y1_def y2_def)
  finally show "fst (update_buffer F (fst (update_buffer F buf c1 True s)) c2 True
       (snd (update_buffer F buf c1 True s))) = fst (update_buffer F buf (c1 @ c2) True s)" .
qed

subsection \<open>One iteration and the loop\<close>

lemma iteration_InrD:
  assumes "iteration F cbp fs st eeg_data = (evs, Inr st')"
  shows "\<exists>ch_data epoch.
           take_channels INDEX_CHANNEL eeg_data = Inr ch_data \<and>
           data_epoch F fs st ch_data = Inr epoch \<and>
           eeg_buffer st' = fst (update_eeg F st ch_data) \<and>
           filter_state st' = snd (update_eeg F st ch_data) \<and>
           band_buffer st' =
             fst (update_buffer F (band_buffer st) [band_row (cbp epoch fs)] False None) \<and>
           (\<exists>evs1 evs2. evs = evs1 @ evs2 \<and> detect_blinks ch_data = (evs1, None) \<and>
              report (band_buffer st') = Inr evs2)"
  using assms
  by (auto simp: iteration_def compute_band_powers_section_def Let_def
           split: sum.splits prod.splits option.splits)

lemma iteration_lengths:
  assumes "iteration F cbp fs st eeg_data = (evs, Inr st')"
  shows "length (eeg_buffer st') = length (eeg_buffer st) \<and>
         length (band_buffer st') = length (band_buffer st)"
  using iteration_InrD [OF assms] by (auto simp: update_eeg_def length_update_buffer)

lemma loop_lengths:
  "loop F cbp fs st pulls = (evs, Inr st') \<Longrightarrow>
   length (eeg_buffer st') = length (eeg_buffer st) \<and>
   length (band_buffer st') = length (band_buffer st)"
proof (induction pulls arbitrary: st evs)
  case Nil
  then show ?case by simp
next
  case (Cons eeg_data pulls)
  obtain e1 r1 where it: "iteration F cbp fs st eeg_data = (e1, r1)"
    by (cases "iteration F cbp fs st eeg_data")
  show ?case
  proof (cases r1)
    case (Inl e)
    with Cons.prems it show ?thesis by simp
  next
    case (Inr st1)
    obtain e2 r2 where lp: "loop F cbp fs st1 pulls = (e2, r2)"
      by (cases "loop F cbp fs st1 pulls")
    from Cons.prems it Inr lp have "r2 = Inr st'" by simp
    with lp have "loop F cbp fs st1 pulls = (e2, Inr st')" by simp
    from Cons.IH [OF this] iteration_lengths [of F cbp fs st eeg_data e1 st1] it Inr
    show ?thesis by simp
  qed
qed

subsection \<open>Evaluating a concrete run\<close>

lemmas run_eval =
  iteration_def take_channels_def INDEX_CHANNEL_def detect_blinks_def signal_diff_def
  py_max_def py_min_def BLINK_THRESHOLD_def compute_band_powers_section_def update_eeg_def
  data_epoch_def update_buffer_def apply_filter_def filter_row_def get_last_data_def
  EPOCH_LENGTH_def report_def mean_axis0_def vadd_def one_pole_def fixed_estimator_def
  Let_def b64_eval

lemma replicate_numeral: "replicate (numeral k) x = x # replicate (pred_numeral k) x"
  by (simp add: numeral_eq_Suc)

lemma run_initial: "initial_state 1 = Inr run_start"
  by (simp add: initial_state_Inr BUFFER_LENGTH_def run_start_def)

lemma run_first:
  "iteration one_pole fixed_estimator 1 run_start [[4, 9], [304, 9]]
     = (run_first_events, Inr run_middle)"
  by (simp add: run_start_def run_first_events_def run_middle_def run_eval replicate_numeral)

lemma run_second:
  "iteration one_pole fixed_estimator 1 run_middle [[8, 7]]
     = ([SignalDifference [0], BandPowers 2 4 6 8], Inr run_final)"
  by (simp add: run_middle_def run_final_def run_eval replicate_numeral)

lemma run_first_loop:
  "loop one_pole fixed_estimator 1 run_start [[[4, 9], [304, 9]]]
     = (run_first_events @ [Print ''Closing!''], Inr run_middle)"
  by (simp add: run_first)

lemma run_result:
  "loop one_pole fixed_estimator 1 run_start run_pulls = (run_events, Inr run_final)"
  by (simp add: run_pulls_def run_first run_second run_events_def run_first_events_def)

subsection \<open>The lengths of the buffers\<close>

text \<open>
  C4. The buffer update returns a buffer of the length of the buffer it was given, for
  every buffer and every chunk, filtered or not; and after any number of iterations of
  the loop the sample buffer and the band power buffer have the lengths they started
  with.
\<close>

theorem buffers_keep_length:
  "length (fst (update_buffer F buf chunk notch s)) = length buf \<and>
   (loop F cbp fs st pulls = (evs, Inr st') \<longrightarrow>
      length (eeg_buffer st') = length (eeg_buffer st) \<and>
      length (band_buffer st') = length (band_buffer st))"
  using loop_lengths [of F cbp fs st pulls evs st'] by (simp add: length_update_buffer)

theorem buffers_keep_length_witness:
  "loop one_pole fixed_estimator 1 run_start run_pulls = (run_events, Inr run_final) \<and>
   length (fst (update_buffer one_pole [[0], [0], [0]] [[1], [2], [3], [4], [5]] True None)) = 3 \<and>
   length (fst (update_buffer one_pole [[0], [0], [0]] [] True None)) = 3 \<and>
   length (eeg_buffer run_final) = 5 \<and> length (eeg_buffer run_start) = 5 \<and>
   length (band_buffer run_final) = 21 \<and> length (band_buffer run_start) = 21"
  using buffers_keep_length [of one_pole "[[0], [0], [0]]" "[[1], [2], [3], [4], [5]]" True None
          fixed_estimator 1 run_start run_pulls run_events run_final]
        buffers_keep_length [of one_pole "[[0], [0], [0]]" "[]" True None
          fixed_estimator 1 run_start run_pulls run_events run_final]
        run_result
  by (simp add: run_start_def)

subsection \<open>Threading the filter state\<close>

text \<open>
  C5. For a fixed filter and any state, filtering \<open>c1\<close> and then \<open>c2\<close> with the state that
  the first call returned gives the output samples, and the final state, of filtering
  \<open>c1 @ c2\<close> in one call; the same holds for two updates of the sample buffer against
  one. The arithmetic of the filter step is whatever the step does, so the outputs are
  equal, not only close.
\<close>

theorem filter_state_threading:
  "fst (apply_filter F s (c1 @ c2)) =
     fst (apply_filter F s c1) @ fst (apply_filter F (snd (apply_filter F s c1)) c2) \<and>
   snd (apply_filter F s (c1 @ c2)) = snd (apply_filter F (snd (apply_filter F s c1)) c2) \<and>
   update_buffer F (fst (update_buffer F buf c1 True s)) c2 True
       (snd (update_buffer F buf c1 True s))
     = update_buffer F buf (c1 @ c2) True s"
  by (simp add: apply_filter_append update_buffer_append case_prod_beta)

subsection \<open>The epoch\<close>

lemma initial_state_InrD:
  assumes "initial_state fs = Inr st0"
  shows "0 \<le> fs \<and> length (eeg_buffer st0) = nat (fs * BUFFER_LENGTH) \<and>
         length (band_buffer st0) = nat n_win_test \<and> filter_state st0 = None"
  using assms
  by (auto simp: initial_state_def BUFFER_LENGTH_def split: if_splits)

lemma take_channels_error:
  "take_channels idx eeg_data \<noteq> Inl InsufficientEpochLength"
  by (simp add: take_channels_def split: list.splits)

lemma take_channels_nonempty:
  "take_channels idx eeg_data = Inr ch_data \<Longrightarrow> ch_data \<noteq> []"
  by (auto simp: take_channels_def split: list.splits if_splits)

lemma truth_error: "truth bs \<noteq> Inl InsufficientEpochLength"
  by (cases bs rule: truth.cases) simp_all

lemma py_max_from_error: "py_max_from best rows \<noteq> Inl InsufficientEpochLength"
  by (induction rows arbitrary: best) (auto simp: truth_error split: sum.splits)

lemma py_min_from_error: "py_min_from best rows \<noteq> Inl InsufficientEpochLength"
  by (induction rows arbitrary: best) (auto simp: truth_error split: sum.splits)

lemma detect_blinks_error: "snd (detect_blinks ch_data) \<noteq> Some InsufficientEpochLength"
  using py_max_from_error py_min_from_error truth_error
  by (auto simp: detect_blinks_def signal_diff_def py_max_def py_min_def
           split: sum.splits list.splits)

lemma report_error: "report band_buf \<noteq> Inl InsufficientEpochLength"
  by (simp add: report_def split: option.splits)

lemma data_epoch_full:
  assumes "nat (EPOCH_LENGTH * fs) \<le> length (eeg_buffer st)"
  shows "data_epoch F fs st ch_data =
           Inr (drop (length (eeg_buffer st) - nat (EPOCH_LENGTH * fs))
                  (fst (update_eeg F st ch_data))) \<and>
         length (drop (length (eeg_buffer st) - nat (EPOCH_LENGTH * fs))
                  (fst (update_eeg F st ch_data))) = nat (EPOCH_LENGTH * fs)"
  using assms length_update_buffer [of F "eeg_buffer st" ch_data True "filter_state st"]
  by (simp add: data_epoch_def get_last_data_def update_eeg_def)

lemma iteration_error:
  assumes "nat (EPOCH_LENGTH * fs) \<le> length (eeg_buffer st)"
  shows "snd (iteration F cbp fs st eeg_data) \<noteq> Inl InsufficientEpochLength"
proof (cases "take_channels INDEX_CHANNEL eeg_data")
  case (Inl e)
  with take_channels_error [of INDEX_CHANNEL eeg_data] show ?thesis
    by (simp add: iteration_def)
next
  case (Inr ch_data)
  obtain evs r where d: "detect_blinks ch_data = (evs, r)" by (cases "detect_blinks ch_data")
  show ?thesis
  proof (cases r)
    case (Some e)
    with d detect_blinks_error [of ch_data] Inr show ?thesis by (simp add: iteration_def)
  next
    case None
    from data_epoch_full [OF assms, of F ch_data] obtain epoch
      where ep: "data_epoch F fs st ch_data = Inr epoch" by blast
    show ?thesis
      using Inr d None ep report_error
      by (auto simp: iteration_def compute_band_powers_section_def Let_def
               split: sum.splits prod.splits)
  qed
qed

lemma iteration_band_buffer:
  assumes "iteration F cbp fs st eeg_data = (evs, Inr st')" and "band_buffer st \<noteq> []"
  shows "\<exists>ch_data epoch.
           take_channels INDEX_CHANNEL eeg_data = Inr ch_data \<and>
           data_epoch F fs st ch_data = Inr epoch \<and>
           band_buffer st' = tl (band_buffer st) @ [band_row (cbp epoch fs)]"
proof -
  from iteration_InrD [OF assms(1)] obtain ch_data epoch where
    ch: "take_channels INDEX_CHANNEL eeg_data = Inr ch_data" and
    ep: "data_epoch F fs st ch_data = Inr epoch" and
    bb: "band_buffer st' =
           fst (update_buffer F (band_buffer st) [band_row (cbp epoch fs)] False None)"
    by blast
  from assms(2) obtain r rs where old: "band_buffer st = r # rs"
    by (cases "band_buffer st") auto
  have "band_buffer st' = tl (band_buffer st) @ [band_row (cbp epoch fs)]"
    by (simp add: bb update_buffer_drop old)
  with ch ep show ?thesis by blast
qed

lemma iteration_cong:
  assumes agree: "\<forall>e. int (length e) = EPOCH_LENGTH * fs \<longrightarrow> cbp e fs = cbp' e fs"
    and fs: "0 \<le> fs"
    and le: "nat (EPOCH_LENGTH * fs) \<le> length (eeg_buffer st)"
  shows "iteration F cbp fs st eeg_data = iteration F cbp' fs st eeg_data"
proof (cases "take_channels INDEX_CHANNEL eeg_data")
  case (Inl e)
  then show ?thesis by (simp add: iteration_def)
next
  case (Inr ch_data)
  from data_epoch_full [OF le, of F ch_data] obtain epoch where
    ep: "data_epoch F fs st ch_data = Inr epoch" and
    len: "length epoch = nat (EPOCH_LENGTH * fs)" by blast
  from len fs have "int (length epoch) = EPOCH_LENGTH * fs" by (simp add: EPOCH_LENGTH_def)
  with agree have "cbp epoch fs = cbp' epoch fs" by blast
  then have "compute_band_powers_section F cbp fs st ch_data
               = compute_band_powers_section F cbp' fs st ch_data"
    by (simp add: compute_band_powers_section_def ep)
  with Inr show ?thesis by (simp add: iteration_def)
qed

lemma loop_cong:
  assumes agree: "\<forall>e. int (length e) = EPOCH_LENGTH * fs \<longrightarrow> cbp e fs = cbp' e fs"
    and fs: "0 \<le> fs"
  shows "nat (EPOCH_LENGTH * fs) \<le> length (eeg_buffer st) \<Longrightarrow>
         loop F cbp fs st pulls = loop F cbp' fs st pulls"
proof (induction pulls arbitrary: st)
  case Nil
  show ?case by simp
next
  case (Cons eeg_data pulls)
  note it = iteration_cong [where cbp = cbp and cbp' = cbp' and fs = fs and F = F
      and eeg_data = eeg_data, OF agree fs Cons.prems]
  obtain evs r where r: "iteration F cbp' fs st eeg_data = (evs, r)"
    by (cases "iteration F cbp' fs st eeg_data")
  show ?case
  proof (cases r)
    case (Inl e)
    with it r show ?thesis by simp
  next
    case (Inr st1)
    from it r Inr have "iteration F cbp fs st eeg_data = (evs, Inr st1)" by simp
    from iteration_lengths [OF this] Cons.prems
    have "nat (EPOCH_LENGTH * fs) \<le> length (eeg_buffer st1)" by simp
    from Cons.IH [OF this] it r Inr show ?thesis by simp
  qed
qed

text \<open>
  C7. In every state that the loop reaches from the initial state, the sample buffer
  holds \<open>BUFFER_LENGTH * fs\<close> rows, the request \<open>EPOCH_LENGTH * fs\<close> does not exceed that,
  the epoch extracted in the next iteration has exactly \<open>EPOCH_LENGTH * fs\<close> rows for
  every chunk, and no iteration ends in the failure of the epoch extractor. The
  estimator is called on that epoch: the row that a successful iteration appends to the
  band power buffer is the estimator's value at the last \<open>EPOCH_LENGTH * fs\<close> rows of the
  updated sample buffer. And it is called on nothing else: two estimators that agree on
  all arrays of exactly \<open>EPOCH_LENGTH * fs\<close> rows give the same iteration and the same
  run from the initial state, whatever they return elsewhere.
\<close>

theorem epoch_is_full:
  assumes "initial_state fs = Inr st0" and "loop F cbp fs st0 pulls = (evs, Inr st)"
  shows "EPOCH_LENGTH * fs \<le> BUFFER_LENGTH * fs \<and>
         int (length (eeg_buffer st)) = BUFFER_LENGTH * fs \<and>
         (\<exists>epoch. data_epoch F fs st ch_data = Inr epoch \<and>
                   int (length epoch) = EPOCH_LENGTH * fs) \<and>
         snd (iteration F cbp fs st eeg_data) \<noteq> Inl InsufficientEpochLength \<and>
         (iteration F cbp fs st eeg_data = (evs', Inr st') \<longrightarrow>
            (\<exists>ch epoch. take_channels INDEX_CHANNEL eeg_data = Inr ch \<and>
               data_epoch F fs st ch = Inr epoch \<and>
               int (length epoch) = EPOCH_LENGTH * fs \<and>
               epoch = drop (length (eeg_buffer st) - nat (EPOCH_LENGTH * fs))
                         (fst (update_buffer F (eeg_buffer st) ch True (filter_state st))) \<and>
               band_buffer st' = tl (band_buffer st) @ [band_row (cbp epoch fs)])) \<and>
         ((\<forall>e. int (length e) = EPOCH_LENGTH * fs \<longrightarrow> cbp e fs = cbp' e fs) \<longrightarrow>
            iteration F cbp fs st eeg_data = iteration F cbp' fs st eeg_data \<and>
            loop F cbp fs st0 pulls' = loop F cbp' fs st0 pulls')"
proof -
  from initial_state_InrD [OF assms(1)]
  have fs: "0 \<le> fs" and l0: "length (eeg_buffer st0) = nat (fs * BUFFER_LENGTH)"
    and b0: "length (band_buffer st0) = nat n_win_test" by simp_all
  from loop_lengths [OF assms(2)] l0 b0
  have l: "length (eeg_buffer st) = nat (fs * BUFFER_LENGTH)"
    and b: "length (band_buffer st) = nat n_win_test" by simp_all
  from b have bne: "band_buffer st \<noteq> []" by (auto simp: n_win_test_value)
  have le: "nat (EPOCH_LENGTH * fs) \<le> length (eeg_buffer st)"
    using fs by (simp add: l EPOCH_LENGTH_def BUFFER_LENGTH_def)
  have le0: "nat (EPOCH_LENGTH * fs) \<le> length (eeg_buffer st0)"
    using fs by (simp add: l0 EPOCH_LENGTH_def BUFFER_LENGTH_def)
  have full: "\<exists>epoch. data_epoch F fs st c = Inr epoch \<and>
                int (length epoch) = EPOCH_LENGTH * fs \<and>
                epoch = drop (length (eeg_buffer st) - nat (EPOCH_LENGTH * fs))
                         (fst (update_buffer F (eeg_buffer st) c True (filter_state st)))" for c
    using data_epoch_full [OF le, of F c] fs by (simp add: EPOCH_LENGTH_def update_eeg_def)
  have c1: "EPOCH_LENGTH * fs \<le> BUFFER_LENGTH * fs"
    using fs by (simp add: EPOCH_LENGTH_def BUFFER_LENGTH_def)
  have c2: "int (length (eeg_buffer st)) = BUFFER_LENGTH * fs"
    using fs by (simp add: l BUFFER_LENGTH_def)
  have c3: "\<exists>epoch. data_epoch F fs st ch_data = Inr epoch \<and>
                   int (length epoch) = EPOCH_LENGTH * fs"
    using full [of ch_data] by blast
  note c4 = iteration_error [OF le, of F cbp eeg_data]
  have c5: "\<exists>ch epoch. take_channels INDEX_CHANNEL eeg_data = Inr ch \<and>
               data_epoch F fs st ch = Inr epoch \<and>
               int (length epoch) = EPOCH_LENGTH * fs \<and>
               epoch = drop (length (eeg_buffer st) - nat (EPOCH_LENGTH * fs))
                         (fst (update_buffer F (eeg_buffer st) ch True (filter_state st))) \<and>
               band_buffer st' = tl (band_buffer st) @ [band_row (cbp epoch fs)]"
    if it: "iteration F cbp fs st eeg_data = (evs', Inr st')"
  proof -
    from iteration_band_buffer [OF it bne] obtain ch epoch where
      ch: "take_channels INDEX_CHANNEL eeg_data = Inr ch" and
      ep: "data_epoch F fs st ch = Inr epoch" and
      bb: "band_buffer st' = tl (band_buffer st) @ [band_row (cbp epoch fs)]" by blast
    from full [of ch] ep ch bb show ?thesis by auto
  qed
  have c6: "iteration F cbp fs st eeg_data = iteration F cbp' fs st eeg_data \<and>
            loop F cbp fs st0 pulls' = loop F cbp' fs st0 pulls'"
    if agree: "\<forall>e. int (length e) = EPOCH_LENGTH * fs \<longrightarrow> cbp e fs = cbp' e fs"
    using iteration_cong [where cbp = cbp and cbp' = cbp' and fs = fs, OF agree fs le]
      loop_cong [where cbp = cbp and cbp' = cbp' and fs = fs, OF agree fs le0] by simp
  from c1 c2 c3 c4 c5 c6 show ?thesis by blast
qed

theorem epoch_is_full_witness:
  "initial_state 1 = Inr run_start \<and>
   loop one_pole fixed_estimator 1 run_start [[[4, 9], [304, 9]]]
     = (run_first_events @ [Print ''Closing!''], Inr run_middle) \<and>
   iteration one_pole fixed_estimator 1 run_middle [[8, 7]]
     = ([SignalDifference [0], BandPowers 2 4 6 8], Inr run_final) \<and>
   fixed_estimator [[161]] 1 = one_row_estimator [[161]] 1 \<and>
   fixed_estimator [] 1 \<noteq> one_row_estimator [] 1 \<and>
   int (length (eeg_buffer run_middle)) = BUFFER_LENGTH * 1 \<and>
   data_epoch one_pole 1 run_middle [[8]] = Inr [[161]] \<and>
   band_buffer run_final
     = tl (band_buffer run_middle) @ [band_row (fixed_estimator [[161]] 1)] \<and>
   snd (iteration one_pole fixed_estimator 1 run_middle [[8, 7]])
     \<noteq> Inl InsufficientEpochLength \<and>
   loop one_pole one_row_estimator 1 run_start run_pulls = (run_events, Inr run_final)"
proof -
  have agree: "\<forall>e. int (length e) = EPOCH_LENGTH * 1 \<longrightarrow>
                 fixed_estimator e 1 = one_row_estimator e 1"
    by (simp add: EPOCH_LENGTH_def fixed_estimator_def one_row_estimator_def)
  have epoch: "data_epoch one_pole 1 run_middle [[8]] = Inr [[161]]"
    by (simp add: run_middle_def run_eval replicate_numeral)
  have len: "int (length (eeg_buffer run_middle)) = BUFFER_LENGTH * 1"
    by (simp add: run_middle_def BUFFER_LENGTH_def)
  have band: "band_buffer run_final
                = tl (band_buffer run_middle) @ [band_row (fixed_estimator [[161]] 1)]"
    by (simp add: run_middle_def run_final_def fixed_estimator_def replicate_numeral)
  note inst = epoch_is_full [OF run_initial run_first_loop, where ch_data = "[[8]]"
      and eeg_data = "[[8, 7]]" and evs' = "[SignalDifference [0], BandPowers 2 4 6 8]"
      and st' = run_final and cbp' = one_row_estimator and pulls' = run_pulls]
  from inst have no_fail: "snd (iteration one_pole fixed_estimator 1 run_middle [[8, 7]])
                            \<noteq> Inl InsufficientEpochLength"
    by blast
  from inst agree
  have "loop one_pole fixed_estimator 1 run_start run_pulls
          = loop one_pole one_row_estimator 1 run_start run_pulls"
    by blast
  with run_result
  have other: "loop one_pole one_row_estimator 1 run_start run_pulls = (run_events, Inr run_final)"
    by simp
  have same: "fixed_estimator [[161]] 1 = one_row_estimator [[161]] 1"
    and differ: "fixed_estimator [] 1 \<noteq> one_row_estimator [] 1"
    by (simp_all add: fixed_estimator_def one_row_estimator_def)
  from run_initial run_first_loop run_second same differ len epoch band no_fail other
  show ?thesis by blast
qed

subsection \<open>Who assigns the filter state\<close>

text \<open>
  C10. After an iteration the filter state is the second component that the update of
  the sample buffer returned. It is not the second component of the update of the band
  power buffer (which is \<open>None\<close>), and it does not depend on the band power buffer or on
  the estimator.
\<close>

theorem filter_state_only_from_eeg_update:
  assumes "iteration F cbp fs st eeg_data = (evs, Inr st')"
  shows "(\<exists>ch_data. take_channels INDEX_CHANNEL eeg_data = Inr ch_data \<and>
            filter_state st' =
              snd (update_buffer F (eeg_buffer st) ch_data True (filter_state st))) \<and>
         filter_state st' \<noteq> snd (update_buffer F (band_buffer st) rows False None) \<and>
         (iteration F cbp' fs (st\<lparr>band_buffer := bb\<rparr>) eeg_data = (evs', Inr st'') \<longrightarrow>
            filter_state st'' = filter_state st')"
proof -
  from iteration_InrD [OF assms] obtain ch_data where
    ch: "take_channels INDEX_CHANNEL eeg_data = Inr ch_data" and
    f: "filter_state st' = snd (update_eeg F st ch_data)" by blast
  from take_channels_nonempty [OF ch] obtain r rs where rs: "ch_data = r # rs"
    by (cases ch_data) auto
  have some: "filter_state st' \<noteq> None"
    by (simp add: f update_eeg_def update_buffer_state rs apply_filter_Cons del: lfilter.simps)
  have none: "snd (update_buffer F (band_buffer st) rows False None) = None"
    by (simp add: update_buffer_state)
  have frame: "filter_state st'' = filter_state st'"
    if "iteration F cbp' fs (st\<lparr>band_buffer := bb\<rparr>) eeg_data = (evs', Inr st'')"
    using iteration_InrD [OF that] ch f by (auto simp: update_eeg_def)
  from ch f some none frame show ?thesis by (auto simp: update_eeg_def)
qed

theorem filter_state_only_from_eeg_update_witness:
  "iteration one_pole fixed_estimator 1 run_start [[4, 9], [304, 9]]
     = ([SignalDifference [300], PressSpace, Print ''Blink detected, Dino jumps!'',
         BandPowers 1 2 3 4],
        Inr \<lparr>eeg_buffer = [[0], [0], [0], [4], [306]], filter_state = Some [306],
              band_buffer = replicate 20 [0, 0, 0, 0] @ [[21, 42, 63, 84]]\<rparr>) \<and>
   snd (update_buffer one_pole (eeg_buffer run_start) [[4], [304]] True None) = Some [306] \<and>
   snd (update_buffer one_pole (band_buffer run_start) [[21, 42, 63, 84]] False None) = None"
  using filter_state_only_from_eeg_update [of one_pole fixed_estimator 1 run_start
          "[[4, 9], [304, 9]]"
          "[SignalDifference [300], PressSpace, Print ''Blink detected, Dino jumps!'',
            BandPowers 1 2 3 4]"
          "\<lparr>eeg_buffer = [[0], [0], [0], [4], [306]], filter_state = Some [306],
              band_buffer = replicate 20 [0, 0, 0, 0] @ [[21, 42, 63, 84]]\<rparr>"
          "[[21, 42, 63, 84]]"]
  by (simp add: run_start_def run_eval replicate_numeral)

subsection \<open>The blink detector\<close>

lemma py_max_from_column:
  "py_max_from [b] (map (\<lambda>x. [x]) xs) = Inr [fold max xs b]"
proof (induction xs arbitrary: b)
  case Nil
  show ?case by simp
next
  case (Cons x xs)
  show ?case
    using Cons.IH [of x] Cons.IH [of b] by (cases "b < x") (simp_all add: max_def)
qed

lemma py_min_from_column:
  "py_min_from [b] (map (\<lambda>x. [x]) xs) = Inr [fold min xs b]"
proof (induction xs arbitrary: b)
  case Nil
  show ?case by simp
next
  case (Cons x xs)
  show ?case
    using Cons.IH [of x] Cons.IH [of b] by (cases "x < b") (simp_all add: min_def)
qed

lemma signal_diff_column:
  assumes "xs \<noteq> []"
  shows "signal_diff (map (\<lambda>x. [x]) xs) = Inr [fl (Max (set xs) - Min (set xs))]"
proof -
  from assms obtain b ys where xs: "xs = b # ys" by (cases xs) auto
  show ?thesis
    by (simp add: xs signal_diff_def py_max_def py_min_def py_max_from_column
          py_min_from_column Max.set_eq_fold Min.set_eq_fold del: set_simps)
qed

lemma detect_blinks_column:
  assumes "xs \<noteq> []"
  shows "detect_blinks (map (\<lambda>x. [x]) xs) =
           (SignalDifference [fl (Max (set xs) - Min (set xs))] #
              (if BLINK_THRESHOLD < fl (Max (set xs) - Min (set xs))
               then [PressSpace, Print ''Blink detected, Dino jumps!''] else []),
            None)"
  by (simp add: detect_blinks_def signal_diff_column [OF assms])

lemma take_channels_column:
  assumes "eeg_data \<noteq> []" and "list_all (\<lambda>r. length r = n) eeg_data" and "0 < n"
  shows "take_channels INDEX_CHANNEL eeg_data
           = Inr (map (\<lambda>x. [x]) (map (\<lambda>r. r ! 0) eeg_data))"
proof -
  from assms(1) obtain r rs where e: "eeg_data = r # rs" by (cases eeg_data) auto
  with assms(2,3) have "length r = n" and "\<forall>r' \<in> set rs. length r' = n"
    by (simp_all add: list_all_iff)
  with assms(3) show ?thesis
    by (simp add: take_channels_def INDEX_CHANNEL_def e list_ex_iff)
qed

lemma report_no_press: "report band_buf = Inr evs \<Longrightarrow> PressSpace \<notin> set evs"
  by (auto simp: report_def split: option.splits if_splits)

lemma section_no_press:
  "compute_band_powers_section F cbp fs st ch_data = Inr (st', evs) \<Longrightarrow> PressSpace \<notin> set evs"
  by (auto simp: compute_band_powers_section_def Let_def dest: report_no_press
           split: prod.splits sum.splits)

lemma iteration_press:
  assumes "take_channels INDEX_CHANNEL eeg_data = Inr ch_data"
  shows "PressSpace \<in> set (fst (iteration F cbp fs st eeg_data))
           \<longleftrightarrow> PressSpace \<in> set (fst (detect_blinks ch_data))"
proof -
  obtain evs r where d: "detect_blinks ch_data = (evs, r)" by (cases "detect_blinks ch_data")
  show ?thesis
  proof (cases r)
    case (Some e)
    with d assms show ?thesis by (simp add: iteration_def)
  next
    case None
    show ?thesis
    proof (cases "compute_band_powers_section F cbp fs st ch_data")
      case (Inl e)
      with d None assms show ?thesis by (simp add: iteration_def)
    next
      case (Inr p)
      obtain st' evs' where p: "p = (st', evs')" by (cases p)
      from section_no_press [of F cbp fs st ch_data st' evs'] Inr p
      have "PressSpace \<notin> set evs'" by simp
      with d None assms Inr p show ?thesis by (simp add: iteration_def)
    qed
  qed
qed


lemma fl_threshold: "fl BLINK_THRESHOLD = BLINK_THRESHOLD"
  using fl_of_int [of 200, where ?'a = real] by (simp add: BLINK_THRESHOLD_def)

lemma fl_le_threshold: "d \<le> BLINK_THRESHOLD \<Longrightarrow> fl d \<le> BLINK_THRESHOLD"
  using fl_le_of_int [of d 200] by (simp add: BLINK_THRESHOLD_def)

text \<open>
  C3, for the difference that line 92 computes. For a chunk with at least one sample (a
  rectangular array with at least one channel), the iteration presses the key if and
  only if the binary64 difference of the largest and the smallest sample of the selected
  channel is greater than the threshold; the detector raises nothing, and that rounded
  difference is what it prints. If the key is pressed, the exact difference is greater
  than the threshold as well; and an exact difference equal to the threshold does not
  press the key.
\<close>

theorem blink_iff_rounded_difference_exceeds:
  assumes "eeg_data \<noteq> []" and "list_all (\<lambda>r. length r = n) eeg_data" and "0 < n"
  shows "(PressSpace \<in> set (fst (iteration F cbp fs st eeg_data))
            \<longleftrightarrow> BLINK_THRESHOLD
                  < fl (Max (set (map (\<lambda>r. r ! 0) eeg_data))
                        - Min (set (map (\<lambda>r. r ! 0) eeg_data)))) \<and>
         (PressSpace \<in> set (fst (iteration F cbp fs st eeg_data))
            \<longrightarrow> BLINK_THRESHOLD
                  < Max (set (map (\<lambda>r. r ! 0) eeg_data))
                    - Min (set (map (\<lambda>r. r ! 0) eeg_data))) \<and>
         (Max (set (map (\<lambda>r. r ! 0) eeg_data)) - Min (set (map (\<lambda>r. r ! 0) eeg_data))
            = BLINK_THRESHOLD
            \<longrightarrow> PressSpace \<notin> set (fst (iteration F cbp fs st eeg_data))) \<and>
         (\<exists>ch_data. take_channels INDEX_CHANNEL eeg_data = Inr ch_data \<and>
            signal_diff ch_data
              = Inr [fl (Max (set (map (\<lambda>r. r ! 0) eeg_data))
                         - Min (set (map (\<lambda>r. r ! 0) eeg_data)))] \<and>
            snd (detect_blinks ch_data) = None)"
proof -
  let ?xs = "map (\<lambda>r. r ! 0) eeg_data"
  let ?d = "Max (set ?xs) - Min (set ?xs)"
  have ne: "?xs \<noteq> []" using assms(1) by simp
  note tc = take_channels_column [OF assms]
  have iff: "PressSpace \<in> set (fst (iteration F cbp fs st eeg_data))
          \<longleftrightarrow> BLINK_THRESHOLD < fl ?d"
    by (simp add: iteration_press [OF tc] detect_blinks_column [OF ne] del: set_map map_map)
  have only_if: "BLINK_THRESHOLD < ?d" if "BLINK_THRESHOLD < fl ?d"
  proof (rule ccontr)
    assume "\<not> BLINK_THRESHOLD < ?d"
    then have "?d \<le> BLINK_THRESHOLD" by simp
    then have "fl ?d \<le> BLINK_THRESHOLD" by (rule fl_le_threshold)
    with that show False by simp
  qed
  have sd: "signal_diff (map (\<lambda>x. [x]) ?xs) = Inr [fl ?d]"
    by (rule signal_diff_column [OF ne])
  have nd: "snd (detect_blinks (map (\<lambda>x. [x]) ?xs)) = None"
    by (simp add: detect_blinks_column [OF ne] del: set_map map_map)
  have at_threshold: "\<not> BLINK_THRESHOLD < fl ?d" if "?d = BLINK_THRESHOLD"
    by (simp only: that fl_threshold less_irrefl not_False_eq_True)
  from iff only_if at_threshold sd nd tc show ?thesis by blast
qed

theorem blink_iff_rounded_difference_exceeds_witness:
  "[[0, 7], [200, 7]] \<noteq> ([] :: real list list) \<and>
   list_all (\<lambda>r. length r = 2) [[0, 7], [200, 7 :: real]] \<and>
   list_all (\<lambda>r. length r = 2) [[0, 7], [201, 7 :: real]] \<and> (0 :: nat) < 2 \<and>
   PressSpace \<notin> set (fst (iteration one_pole fixed_estimator 1 run_start [[0, 7], [200, 7]])) \<and>
   PressSpace \<in> set (fst (iteration one_pole fixed_estimator 1 run_start [[0, 7], [201, 7]]))"
  using blink_iff_rounded_difference_exceeds
          [of "[[0, 7], [200, 7]]" 2 one_pole fixed_estimator 1 run_start]
        blink_iff_rounded_difference_exceeds
          [of "[[0, 7], [201, 7]]" 2 one_pole fixed_estimator 1 run_start]
  by (simp add: BLINK_THRESHOLD_def b64_eval)

text \<open>
  C3, for the exact difference. The samples \<open>200\<close> and \<open>-2^-70\<close> are binary64 numbers
  whose exact difference is greater than the threshold, but the difference rounds to
  \<open>200\<close> and the key is not pressed.
\<close>

theorem blink_exact_difference_counterexample:
  "take_channels INDEX_CHANNEL [[200, 7], [- (1 / 2 ^ 70), 7]]
     = Inr [[200], [- (1 / 2 ^ 70)]] \<and>
   Max (set [200, - (1 / 2 ^ 70) :: real]) - Min (set [200, - (1 / 2 ^ 70) :: real])
     = 200 + 1 / 2 ^ 70 \<and>
   BLINK_THRESHOLD
     < Max (set [200, - (1 / 2 ^ 70) :: real]) - Min (set [200, - (1 / 2 ^ 70) :: real]) \<and>
   signal_diff [[200], [- (1 / 2 ^ 70)]] = Inr [200] \<and>
   PressSpace
     \<notin> set (fst (iteration one_pole fixed_estimator 1 run_start
                    [[200, 7], [- (1 / 2 ^ 70), 7]]))"
proof -
  have tc: "take_channels INDEX_CHANNEL [[200, 7], [- (1 / 2 ^ 70), 7]]
              = Inr [[200], [- (1 / 2 ^ 70)]]"
    by (simp add: take_channels_def INDEX_CHANNEL_def)
  have d: "Max (set [200, - (1 / 2 ^ 70) :: real]) - Min (set [200, - (1 / 2 ^ 70) :: real])
             = 200 + 1 / 2 ^ 70"
    by simp
  have sd: "signal_diff [[200], [- (1 / 2 ^ 70)]] = Inr [200]"
    by (simp add: signal_diff_def py_max_def py_min_def b64_eval)
  have "fst (detect_blinks [[200], [- (1 / 2 ^ 70)]]) = [SignalDifference [200]]"
    unfolding detect_blinks_def sd by (simp add: BLINK_THRESHOLD_def)
  then have "PressSpace
     \<notin> set (fst (iteration one_pole fixed_estimator 1 run_start
                    [[200, 7], [- (1 / 2 ^ 70), 7]]))"
    unfolding iteration_press [OF tc] by simp
  with tc d sd show ?thesis by (simp add: BLINK_THRESHOLD_def)
qed

text \<open>
  C9. A chunk of one sample never presses the key: the difference of the one sample with
  itself is zero, and the threshold is positive. (A single row without channels raises
  at line 88 and presses nothing either.)
\<close>

theorem single_sample_no_blink:
  "PressSpace \<notin> set (fst (iteration F cbp fs st [r])) \<and>
   signal_diff [[x]] = Inr [0] \<and>
   detect_blinks [[x]] = ([SignalDifference [0]], None) \<and>
   0 < BLINK_THRESHOLD"
proof -
  have d: "detect_blinks [[y]] = ([SignalDifference [0]], None)" for y
    by (simp add: detect_blinks_def signal_diff_def py_max_def py_min_def BLINK_THRESHOLD_def
          fl_zero)
  have "PressSpace \<notin> set (fst (iteration F cbp fs st [r]))"
  proof (cases r)
    case Nil
    then show ?thesis by (simp add: iteration_def take_channels_def INDEX_CHANNEL_def)
  next
    case (Cons a as)
    then have "take_channels INDEX_CHANNEL [r] = Inr [[r ! 0]]"
      by (simp add: take_channels_def INDEX_CHANNEL_def)
    from iteration_press [OF this] show ?thesis by (simp add: d)
  qed
  moreover have "signal_diff [[x]] = Inr [0]"
    by (simp add: signal_diff_def py_max_def py_min_def fl_zero)
  ultimately show ?thesis using d [of x] by (simp add: BLINK_THRESHOLD_def)
qed

subsection \<open>The smoothed band powers\<close>

lemma length_foldl_vadd:
  "length r = n \<Longrightarrow> list_all (\<lambda>r. length r = n) rs \<Longrightarrow> length (foldl vadd r rs) = n"
  by (induction rs arbitrary: r) (simp_all add: vadd_def)

lemma nth_foldl_vadd:
  "length r = n \<Longrightarrow> list_all (\<lambda>r. length r = n) rs \<Longrightarrow> j < n \<Longrightarrow>
   foldl vadd r rs ! j = fl_sum (r ! j) (map (\<lambda>x. x ! j) rs)"
proof (induction rs arbitrary: r)
  case Nil
  show ?case by (simp add: fl_sum_def)
next
  case (Cons x rs)
  have "length (vadd r x) = n" using Cons.prems by (simp add: vadd_def)
  from Cons.IH [OF this] Cons.prems
  have "foldl vadd (vadd r x) rs ! j = fl_sum (vadd r x ! j) (map (\<lambda>x. x ! j) rs)" by simp
  moreover have "vadd r x ! j = fl (r ! j + x ! j)" using Cons.prems by (simp add: vadd_def)
  ultimately show ?case by (simp add: fl_sum_def)
qed

lemma mean_axis0_columns:
  assumes "rows \<noteq> []" and "list_all (\<lambda>r. length r = n) rows"
  shows "\<exists>m. mean_axis0 rows = Some m \<and> length m = n \<and>
           (\<forall>j<n. m ! j = column_mean rows j)"
proof -
  from assms(1) obtain r rs where rows: "rows = r # rs" by (cases rows) auto
  with assms(2) have r: "length r = n" and rs: "list_all (\<lambda>r. length r = n) rs" by simp_all
  show ?thesis
    using length_foldl_vadd [OF r rs] nth_foldl_vadd [OF r rs]
    by (simp add: mean_axis0_def column_mean_def rows)
qed

lemma column_mean_replicate:
  assumes "0 < k"
  shows "column_mean (replicate k v) j
           = fl (fl_sum (v ! j) (replicate (k - 1) (v ! j)) / real k)"
proof -
  from assms obtain k' where k: "k = Suc k'" by (cases k) auto
  show ?thesis by (simp add: column_mean_def k)
qed

lemma fl_sum_replicate_int:
  assumes "\<bar>of_int (z * int (a + n)) :: real\<bar> < 2 ^ 53"
  shows "fl_sum (of_int (z * int a)) (replicate n (of_int z)) = of_int (z * int (a + n))"
  using assms
proof (induction n arbitrary: a)
  case 0
  show ?case by (simp add: fl_sum_def)
next
  case (Suc n)
  have "\<bar>z * int (Suc a)\<bar> \<le> \<bar>z * int (a + Suc n)\<bar>"
    by (simp add: abs_mult mult_left_mono)
  then have "\<bar>of_int (z * int (Suc a)) :: real\<bar> \<le> \<bar>of_int (z * int (a + Suc n))\<bar>"
    by (simp only: of_int_abs [symmetric] of_int_le_iff)
  with Suc.prems have small: "\<bar>of_int (z * int (Suc a)) :: real\<bar> < 2 ^ 53" by simp
  have "(of_int (z * int a) + of_int z :: real) = of_int (z * int (Suc a))"
    by (simp add: algebra_simps)
  then have step: "fl (of_int (z * int a) + of_int z :: real) = of_int (z * int (Suc a))"
    using fl_of_int [OF small] by simp
  have "\<bar>of_int (z * int (Suc a + n)) :: real\<bar> < 2 ^ 53" using Suc.prems by simp
  from Suc.IH [OF this] step show ?case by (simp add: fl_sum_def)
qed

lemma column_mean_replicate_int:
  assumes "0 < k" and "\<bar>of_int z :: real\<bar> * real k < 2 ^ 53" and "v ! j = of_int z"
  shows "column_mean (replicate k v) j = of_int z"
proof -
  from assms(1) obtain k' where k: "k = Suc k'" by (cases k) auto
  have big: "\<bar>of_int (z * int (1 + k')) :: real\<bar> < 2 ^ 53"
    using assms(2) by (simp add: k abs_mult)
  have "fl_sum (of_int (z * int 1)) (replicate k' (of_int z)) = of_int (z * int (1 + k'))"
    by (rule fl_sum_replicate_int [OF big])
  then have s: "fl_sum (of_int z) (replicate k' (of_int z)) = (of_int z :: real) * real k"
    by (simp add: k)
  have "\<bar>of_int z :: real\<bar> \<le> \<bar>of_int z\<bar> * real k"
    using assms(1) by (simp add: mult_le_cancel_left1)
  with assms(2) have small: "\<bar>of_int z :: real\<bar> < 2 ^ 53" by simp
  have "k - 1 = k'" by (simp add: k)
  then have "column_mean (replicate k v) j
               = fl (fl_sum (of_int z) (replicate k' (of_int z)) / real k)"
    by (simp only: column_mean_replicate [OF assms(1)] assms(3))
  also have "\<dots> = fl (of_int z)" using assms(1) by (simp only: s) simp
  also have "\<dots> = of_int z" by (rule fl_of_int [OF small])
  finally show ?thesis .
qed

lemma mean_axis0_replicate_int:
  assumes "0 < k" and "\<forall>x\<in>set v. \<exists>z. x = of_int z \<and> \<bar>x\<bar> * real k < 2 ^ 53"
  shows "mean_axis0 (replicate k v) = Some v"
proof -
  have ne: "replicate k v \<noteq> []" using assms(1) by simp
  have all: "list_all (\<lambda>r. length r = length v) (replicate k v)" by (simp add: list_all_iff)
  from mean_axis0_columns [OF ne all] obtain m where
    m: "mean_axis0 (replicate k v) = Some m" and l: "length m = length v" and
    n: "\<forall>j<length v. m ! j = column_mean (replicate k v) j"
    by blast
  have "m ! j = v ! j" if j: "j < length v" for j
  proof -
    from j have "v ! j \<in> set v" by simp
    with assms(2) obtain z where z: "v ! j = of_int z" and b: "\<bar>v ! j\<bar> * real k < 2 ^ 53"
      by blast
    from b z have "\<bar>of_int z :: real\<bar> * real k < 2 ^ 53" by simp
    from column_mean_replicate_int [OF assms(1) this z] n j z show ?thesis by simp
  qed
  with l have "m = v" by (simp add: nth_equalityI)
  with m show ?thesis by simp
qed

lemma length_band_row: "length (band_row p) = 4"
  by (cases p rule: band_row.cases) simp

lemma report_columns:
  assumes "rows \<noteq> []" and "list_all (\<lambda>r. length r = 4) rows"
  shows "report rows =
           Inr [BandPowers (column_mean rows 0) (column_mean rows 1)
                  (column_mean rows 2) (column_mean rows 3)]"
proof -
  from mean_axis0_columns [OF assms] obtain m where
    m: "mean_axis0 rows = Some m" and l: "length m = 4" and
    n: "\<forall>j<4. m ! j = column_mean rows j"
    by blast
  from n have "m ! 0 = column_mean rows 0" and "m ! 1 = column_mean rows 1"
    and "m ! 2 = column_mean rows 2" and "m ! 3 = column_mean rows 3"
    by simp_all
  with m l show ?thesis by (simp add: report_def)
qed

text \<open>
  C6, in the arithmetic of the code. After an iteration the band power buffer is the old
  one without its first row and with the new band powers as its last row, and the band
  powers that the iteration prints are, column by column, the binary64 mean over all rows
  of that buffer, the rows of zeros included: the entries of the column added from the
  first row to the last and the sum divided by the number of rows, every addition and
  the division rounded. When all \<open>k\<close> rows are equal to one vector, that mean is the
  vector's entry added to itself \<open>k - 1\<close> times and divided by \<open>k\<close>, with the same
  roundings; it is the vector itself when its entries are integers whose \<open>k\<close>-fold is
  below \<open>2^53\<close> in absolute value, the vector of zeros among them.
\<close>

theorem smoothed_is_rounded_column_mean:
  assumes "iteration F cbp fs st eeg_data = (evs, Inr st')"
    and "band_buffer st \<noteq> []"
    and "list_all (\<lambda>r. length r = 4) (band_buffer st)"
  shows "(\<exists>epoch. band_buffer st' = tl (band_buffer st) @ [band_row (cbp epoch fs)]) \<and>
         evs \<noteq> [] \<and>
         last evs =
           BandPowers (column_mean (band_buffer st') 0) (column_mean (band_buffer st') 1)
             (column_mean (band_buffer st') 2) (column_mean (band_buffer st') 3) \<and>
         (0 < k \<longrightarrow>
            column_mean (replicate k v) j
              = fl (fl_sum (v ! j) (replicate (k - 1) (v ! j)) / real k)) \<and>
         (0 < k \<and> (\<forall>x\<in>set v. \<exists>z. x = of_int z \<and> \<bar>x\<bar> * real k < 2 ^ 53) \<longrightarrow>
            mean_axis0 (replicate k v) = Some v)"
proof -
  from iteration_band_buffer [OF assms(1,2)] obtain epoch where
    new: "band_buffer st' = tl (band_buffer st) @ [band_row (cbp epoch fs)]" by blast
  from iteration_InrD [OF assms(1)] obtain evs1 evs2 where
    evs: "evs = evs1 @ evs2" and rep: "report (band_buffer st') = Inr evs2"
    by blast
  from assms(2) obtain r rs where old: "band_buffer st = r # rs"
    by (cases "band_buffer st") auto
  have ne: "band_buffer st' \<noteq> []" by (simp add: new)
  have all: "list_all (\<lambda>r. length r = 4) (band_buffer st')"
    using assms(3) by (simp add: new old length_band_row)
  from report_columns [OF ne all] rep evs
  have "evs \<noteq> []" and "last evs =
           BandPowers (column_mean (band_buffer st') 0) (column_mean (band_buffer st') 1)
             (column_mean (band_buffer st') 2) (column_mean (band_buffer st') 3)"
    by auto
  with new column_mean_replicate [of k v j] mean_axis0_replicate_int [of k v]
  show ?thesis by blast
qed

theorem smoothed_is_rounded_column_mean_witness:
  "iteration one_pole fixed_estimator 1 run_start [[4, 9], [304, 9]]
     = (run_first_events, Inr run_middle) \<and>
   band_buffer run_start \<noteq> [] \<and>
   list_all (\<lambda>r. length r = 4) (band_buffer run_start) \<and>
   band_buffer run_middle = replicate 20 [0, 0, 0, 0] @ [[21, 42, 63, 84]] \<and>
   last run_first_events = BandPowers 1 2 3 4 \<and>
   column_mean (band_buffer run_middle) 0 = 1 \<and>
   (0 :: nat) < 21 \<and>
   (21 :: real) = of_int 21 \<and> (42 :: real) = of_int 42 \<and> (63 :: real) = of_int 63 \<and>
   (84 :: real) = of_int 84 \<and> \<bar>84 :: real\<bar> * real (21 :: nat) < 2 ^ 53 \<and>
   mean_axis0 (replicate 21 [21, 42, 63, 84]) = Some [21, 42, 63, 84]"
proof -
  have ne: "band_buffer run_start \<noteq> []" by (simp add: run_start_def replicate_numeral)
  have all: "list_all (\<lambda>r. length r = 4) (band_buffer run_start)"
    by (simp add: run_start_def list_all_iff)
  have ints: "\<forall>x\<in>set [21, 42, 63, 84 :: real]. \<exists>z. x = of_int z \<and>
                \<bar>x\<bar> * real (21 :: nat) < 2 ^ 53"
  proof -
    have "(21 :: real) = of_int 21" "(42 :: real) = of_int 42" "(63 :: real) = of_int 63"
      "(84 :: real) = of_int 84" by simp_all
    then show ?thesis by (auto intro: exI)
  qed
  note inst = smoothed_is_rounded_column_mean [OF run_first ne all,
      where k = 21 and v = "[21, 42, 63, 84]"]
  from inst have reported: "last run_first_events =
      BandPowers (column_mean (band_buffer run_middle) 0) (column_mean (band_buffer run_middle) 1)
        (column_mean (band_buffer run_middle) 2) (column_mean (band_buffer run_middle) 3)"
    by blast
  then have col: "column_mean (band_buffer run_middle) 0 = 1"
    by (simp add: run_first_events_def)
  from inst ints have mean: "mean_axis0 (replicate 21 [21, 42, 63, 84]) = Some [21, 42, 63, 84]"
    by simp
  have mid: "band_buffer run_middle = replicate 20 [0, 0, 0, 0] @ [[21, 42, 63, 84]]"
    by (simp add: run_middle_def)
  have "last run_first_events = BandPowers 1 2 3 4" by (simp add: run_first_events_def)
  with run_first ne all mid col mean show ?thesis by simp
qed

lemma tenth_value: "fl (1 / 10 :: real) = 3602879701896397 / 36028797018963968"
  by (simp add: b64_eval)

lemma tenth_mean:
  "fl (fl_sum (3602879701896397 / 36028797018963968)
         (replicate 20 (3602879701896397 / 36028797018963968)) / real (21 :: nat))
     = 7205759403792795 / 72057594037927936"
  by (simp add: fl_sum_def replicate_numeral b64_eval)

text \<open>
  C6, for equal rows in general. In binary64 the mean of 21 rows equal to
  \<open>[0.1, 0.1, 0.1, 0.1]\<close> is not that row: the sum of 21 times \<open>0.1\<close> rounds to
  \<open>2.1000000000000005\<close>, and a 21st of it to \<open>0.10000000000000002\<close>.
\<close>

theorem mean_of_equal_rows_counterexample:
  "fl (1 / 10 :: real) = 3602879701896397 / 36028797018963968 \<and>
   report (replicate 21 [fl (1 / 10), fl (1 / 10), fl (1 / 10), fl (1 / 10)])
     = Inr [BandPowers (7205759403792795 / 72057594037927936)
              (7205759403792795 / 72057594037927936) (7205759403792795 / 72057594037927936)
              (7205759403792795 / 72057594037927936)] \<and>
   report (replicate 21 [fl (1 / 10), fl (1 / 10), fl (1 / 10), fl (1 / 10)])
     \<noteq> Inr [BandPowers (fl (1 / 10)) (fl (1 / 10)) (fl (1 / 10)) (fl (1 / 10))] \<and>
   mean_axis0 (replicate 21 [fl (1 / 10), fl (1 / 10), fl (1 / 10), fl (1 / 10)])
     \<noteq> Some [fl (1 / 10), fl (1 / 10), fl (1 / 10), fl (1 / 10)]"
proof -
  let ?c = "3602879701896397 / 36028797018963968 :: real"
  let ?rows = "replicate 21 [?c, ?c, ?c, ?c]"
  have ne: "?rows \<noteq> []" by (simp add: replicate_numeral)
  have all: "list_all (\<lambda>r. length r = 4) ?rows" by (simp add: list_all_iff)
  have col: "column_mean ?rows j = 7205759403792795 / 72057594037927936"
    if "[?c, ?c, ?c, ?c] ! j = ?c" for j
  proof -
    have "column_mean ?rows j = fl (fl_sum ?c (replicate 20 ?c) / real (21 :: nat))"
      using column_mean_replicate [of 21 "[?c, ?c, ?c, ?c]" j] that by simp
    with tenth_mean show ?thesis by simp
  qed
  have c0: "column_mean ?rows 0 = 7205759403792795 / 72057594037927936"
    by (rule col) simp
  have c1: "column_mean ?rows 1 = 7205759403792795 / 72057594037927936"
    by (rule col) simp
  have c2: "column_mean ?rows 2 = 7205759403792795 / 72057594037927936"
    by (rule col) simp
  have c3: "column_mean ?rows 3 = 7205759403792795 / 72057594037927936"
    by (rule col) simp
  have rep: "report ?rows
     = Inr [BandPowers (7205759403792795 / 72057594037927936)
              (7205759403792795 / 72057594037927936) (7205759403792795 / 72057594037927936)
              (7205759403792795 / 72057594037927936)]"
    by (simp only: report_columns [OF ne all] c0 c1 c2 c3)
  from mean_axis0_columns [OF ne all] obtain m where
    m: "mean_axis0 ?rows = Some m" and m0: "\<forall>j<4. m ! j = column_mean ?rows j" by blast
  from m0 c0 have "m ! 0 = 7205759403792795 / 72057594037927936" by simp
  then have "m \<noteq> [?c, ?c, ?c, ?c]" by auto
  with m have mean: "mean_axis0 ?rows \<noteq> Some [?c, ?c, ?c, ?c]" by simp
  from rep mean show ?thesis by (simp only: tenth_value) simp
qed

end
